theory Spec2Isabelle
  imports Main
begin

section \<open>Data model (base/models.py)\<close>

text \<open>
  A \<open>DateTimeField\<close> value is a point on the clock, counted in microseconds since
  0001-01-01T00:00:00, the smallest value Python's \<open>datetime\<close> holds. Python strings
  are lists of characters; \<open>click_count\<close> is a \<open>PositiveIntegerField\<close> that only ever
  grows from 0, a natural number. \<open>pk\<close> is the automatic primary key \<open>id\<close>.
\<close>

type_synonym datetime = int

record URL =
  pk :: nat
  original_url :: string
  short_code :: string
  title :: string
  description :: string
  created_at :: datetime
  created_by :: "nat option"
  is_active :: bool
  expires_at :: "datetime option"
  click_count :: nat
  last_clicked :: "datetime option"

record Click =
  click_pk :: nat
  url_id :: nat
  clicked_at :: datetime
  ip_address :: string
  user_agent :: string
  referer :: "string option"
  browser :: string
  os :: string
  device :: string
  country :: string
  city :: string

text \<open>The persistent store: the two tables, rows in insertion order.\<close>

record database =
  url_table :: "URL list"
  click_table :: "Click list"

text \<open>
  Exceptions the views can meet. \<open>Http404\<close> and \<open>MultipleObjectsReturned\<close> come from
  \<open>get_object_or_404\<close>; \<open>IntegrityError\<close> from a violated column constraint
  (\<open>unique=True\<close> on \<open>short_code\<close>, the non-null \<open>ip_address\<close>); \<open>DatabaseError\<close> from a
  write the store refuses; \<open>OverflowError\<close> from \<open>timedelta\<close> and \<open>datetime\<close> arithmetic;
  \<open>AttributeError\<close> from calling \<open>.get\<close> or \<open>.strip\<close> on a JSON value that has none;
  \<open>NoReverseMatch\<close> from \<open>redirect('url_detail', ...)\<close> for a code the route does not
  match; \<open>ValueError\<close> and \<open>DisallowedRedirect\<close> from the constructor of
  \<open>HttpResponseRedirect\<close>, which parses its target; \<open>JSONDecodeError\<close> and
  \<open>UnicodeDecodeError\<close> from \<open>json.loads\<close>.
\<close>

datatype error =
    Http404
  | MultipleObjectsReturned
  | IntegrityError
  | DatabaseError
  | OverflowError
  | AttributeError
  | NoReverseMatch
  | ValueError
  | DisallowedRedirect
  | JSONDecodeError
  | UnicodeDecodeError

section \<open>Requests and responses (base/views.py)\<close>

datatype json = JStr string | JObj "(string \<times> json) list" | JOther

record request =
  http_method :: string
  POST :: "string \<rightharpoonup> string"
  META :: "string \<rightharpoonup> string"
  user :: "nat option"
  body :: "error + json"

text \<open>
  \<open>user\<close> is \<open>Some\<close> the primary key of \<open>request.user\<close> when it is authenticated.
  \<open>body\<close> is what \<open>json.loads(request.body)\<close> does: the value it returns, or the
  exception it raises (\<open>JSONDecodeError\<close> for text that is not JSON,
  \<open>UnicodeDecodeError\<close> for bytes that are not text). The views are functions of the
  request and, for \<open>redirect_url\<close>, of the code the route has matched; URL routing and
  the decorators stand outside them.
\<close>

datatype message =
    Please_enter_a_valid_URL
  | Custom_code_already_exists
  | Error_creating_short_URL error
  | Short_URL_created string

datatype json_payload =
    Json_error_URL_is_required
  | Json_error_Invalid_JSON
  | Json_error_exception error
  | Json_error_Method_not_allowed
  | Json_created string string string

text \<open>
  A response. The two redirects of \<open>create_short_url\<close> carry the messages queued for
  the next page, in order. \<open>HttpResponseRedirect\<close> carries its \<open>Location\<close> header.
\<close>

datatype response =
    Redirect_home "message list"
  | Redirect_url_detail "message list" string
  | HttpResponseRedirect string
  | Render_expired URL
  | JsonResponse json_payload nat

section \<open>The object manager\<close>

text \<open>\<open>URL.objects.filter(short_code=code).exists()\<close>: the whole table, active or not.\<close>

definition short_code_exists :: "string \<Rightarrow> database \<Rightarrow> bool" where
  "short_code_exists code db = (filter (\<lambda>u. short_code u = code) (url_table db) \<noteq> [])"

text \<open>
  \<open>get_object_or_404(URL, short_code=short_code, is_active=True)\<close>: the single row
  that matches; no row raises \<open>Http404\<close>, several raise \<open>MultipleObjectsReturned\<close>.
\<close>

definition get_object_or_404 :: "string \<Rightarrow> database \<Rightarrow> error + URL" where
  "get_object_or_404 code db =
     (case filter (\<lambda>u. short_code u = code \<and> is_active u) (url_table db) of
        [] \<Rightarrow> Inl Http404
      | [u] \<Rightarrow> Inr u
      | _ \<Rightarrow> Inl MultipleObjectsReturned)"

text \<open>The next automatic primary key of a table: one more than the largest so far.\<close>

definition next_pk :: "nat list \<Rightarrow> nat" where
  "next_pk ks = Suc (fold max ks 0)"

section \<open>Redirect and click recording\<close>

text \<open>
  What one call of \<open>redirect_url\<close> takes from outside the program: the three clock
  readings (\<open>timezone.now()\<close> in \<open>URL.is_expired\<close>, the \<open>auto_now_add\<close> of
  \<open>Click.clicked_at\<close>, \<open>timezone.now()\<close> in \<open>URL.increment_click\<close>), the
  \<open>parse\<close> function of the \<open>user_agents\<close> package, whether the store refuses the
  INSERT of the click or the UPDATE of the counter (a lost connection, a lock timeout, a
  value the column type rejects), and two functions of the framework:
  \<open>clean_ipv6_address\<close>, which gives the canonical text of an IPv6 address or raises
  \<open>ValidationError\<close> (\<open>None\<close>), and the constructor of \<open>HttpResponseRedirect\<close>, which
  parses its target and either raises or sets the \<open>Location\<close> header to
  \<open>iri_to_uri\<close> of the target.
\<close>

record UserAgent =
  browser_family :: string
  browser_version_string :: string
  os_family :: string
  os_version_string :: string
  device_family :: string

record user_agent_data =
  data_browser :: string
  data_os :: string
  data_device :: string

record redirect_env =
  now_is_expired :: datetime
  now_clicked_at :: datetime
  now_increment_click :: datetime
  parse :: "string \<Rightarrow> UserAgent"
  click_insert_fails :: bool
  url_update_fails :: bool
  clean_ipv6_address :: "string \<Rightarrow> string option"
  http_response_redirect :: "string \<Rightarrow> error + string"

text \<open>\<open>x_forwarded_for.split(',')[0]\<close> is the text before the first comma.\<close>

definition get_client_ip :: "request \<Rightarrow> string option" where
  "get_client_ip request =
     (case META request ''HTTP_X_FORWARDED_FOR'' of
        Some x_forwarded_for \<Rightarrow>
          if x_forwarded_for \<noteq> [] then Some (takeWhile (\<lambda>c. c \<noteq> CHR '','') x_forwarded_for)
          else META request ''REMOTE_ADDR''
      | None \<Rightarrow> META request ''REMOTE_ADDR'')"

definition parse_user_agent :: "(string \<Rightarrow> UserAgent) \<Rightarrow> string \<Rightarrow> user_agent_data" where
  "parse_user_agent parse_fn user_agent_string =
     (let ua = parse_fn user_agent_string in
      \<lparr> data_browser = browser_family ua @ '' '' @ browser_version_string ua,
        data_os = os_family ua @ '' '' @ os_version_string ua,
        data_device = device_family ua \<rparr>)"

text \<open>\<open>URL.is_expired\<close>; a \<open>datetime\<close> is always truthy, so the guard tests for \<open>None\<close>.\<close>

definition is_expired :: "datetime \<Rightarrow> URL \<Rightarrow> bool" where
  "is_expired now u = (case expires_at u of Some e \<Rightarrow> now > e | None \<Rightarrow> False)"

text \<open>
  \<open>GenericIPAddressField.get_prep_value\<close>: text with a colon goes through
  \<open>clean_ipv6_address\<close> and stays as it is when that raises; other text is stored as
  it is.
\<close>

definition get_prep_value :: "(string \<Rightarrow> string option) \<Rightarrow> string \<Rightarrow> string" where
  "get_prep_value clean v =
     (if v \<noteq> [] \<and> CHR '':'' \<in> set v
      then (case clean v of Some cleaned \<Rightarrow> cleaned | None \<Rightarrow> v)
      else v)"

text \<open>
  \<open>Click.objects.create(...)\<close>: one INSERT. \<open>ip_address\<close> is a non-null column and
  \<open>url\<close> a foreign key, so a missing address or a missing URL row is an
  \<open>IntegrityError\<close>. The field writes an empty address as NULL
  (\<open>adapt_ipaddressfield_value\<close> is \<open>value or None\<close>), so an empty address is
  missing too. \<open>country\<close> and \<open>city\<close> take their blank defaults.
\<close>

definition Click_objects_create ::
  "redirect_env \<Rightarrow> URL \<Rightarrow> string option \<Rightarrow> string \<Rightarrow> string option \<Rightarrow> user_agent_data
     \<Rightarrow> database \<Rightarrow> error + database" where
  "Click_objects_create env url_obj ip ua_string ref ua db =
     (if click_insert_fails env then Inl DatabaseError
      else case ip of
        None \<Rightarrow> Inl IntegrityError
      | Some addr \<Rightarrow>
          if get_prep_value (clean_ipv6_address env) addr = [] then Inl IntegrityError
          else if \<not> (\<exists>u \<in> set (url_table db). pk u = pk url_obj) then Inl IntegrityError
          else Inr (db\<lparr>click_table := click_table db @
            [\<lparr> click_pk = next_pk (map click_pk (click_table db)),
               url_id = pk url_obj,
               clicked_at = now_clicked_at env,
               ip_address = get_prep_value (clean_ipv6_address env) addr,
               user_agent = ua_string,
               referer = ref,
               browser = data_browser ua,
               os = data_os ua,
               device = data_device ua,
               country = [],
               city = [] \<rparr>]\<rparr>))"

text \<open>
  \<open>self.save(update_fields=['click_count', 'last_clicked'])\<close>: one UPDATE of the two
  columns of the row with the object's primary key, to the values the object holds in
  memory. Django raises \<open>DatabaseError\<close> when the UPDATE touches no row. The guard of
  \<open>URL.save\<close> that generates a code for an empty \<open>short_code\<close> does not fire on this
  path: the object was read from the store, and no stored row has an empty code
  (\<open>reachable_codes_nonempty\<close> below).
\<close>

definition save_update_fields :: "redirect_env \<Rightarrow> URL \<Rightarrow> database \<Rightarrow> error + database" where
  "save_update_fields env obj db =
     (if url_update_fails env then Inl DatabaseError
      else if \<not> (\<exists>u \<in> set (url_table db). pk u = pk obj) then Inl DatabaseError
      else Inr (db\<lparr>url_table :=
        map (\<lambda>u. if pk u = pk obj
                 then u\<lparr>click_count := click_count obj, last_clicked := last_clicked obj\<rparr>
                 else u)
            (url_table db)\<rparr>))"

text \<open>
  \<open>URL.increment_click\<close>: the counter is incremented on the object in memory, then
  written back. The result is the updated object and the store.
\<close>

definition increment_click :: "redirect_env \<Rightarrow> URL \<Rightarrow> database \<Rightarrow> error + (URL \<times> database)" where
  "increment_click env self db =
     (let self' = self\<lparr>click_count := click_count self + 1,
                      last_clicked := Some (now_increment_click env)\<rparr>
      in case save_update_fields env self' db of
           Inl e \<Rightarrow> Inl e
         | Inr db' \<Rightarrow> Inr (self', db'))"

text \<open>
  \<open>redirect_url(request, short_code)\<close>. The result pairs the response, or the exception
  that leaves the view, with the store as the view's writes left it: the view opens no
  transaction, so without \<open>ATOMIC_REQUESTS\<close> each write is committed as it is made. The
  last statement builds the response, after both writes.
\<close>

definition redirect_url ::
  "redirect_env \<Rightarrow> request \<Rightarrow> string \<Rightarrow> database \<Rightarrow> (error + response) \<times> database" where
  "redirect_url env request code db =
     (case get_object_or_404 code db of
        Inl e \<Rightarrow> (Inl e, db)
      | Inr url_obj \<Rightarrow>
          if is_expired (now_is_expired env) url_obj then (Inr (Render_expired url_obj), db)
          else
            let user_agent_string =
                  (case META request ''HTTP_USER_AGENT'' of Some s \<Rightarrow> s | None \<Rightarrow> []);
                user_agent_data = parse_user_agent (parse env) user_agent_string
            in case Click_objects_create env url_obj (get_client_ip request) user_agent_string
                      (META request ''HTTP_REFERER'') user_agent_data db of
                 Inl e \<Rightarrow> (Inl e, db)
               | Inr db1 \<Rightarrow>
                   (case increment_click env url_obj db1 of
                      Inl e \<Rightarrow> (Inl e, db1)
                    | Inr (url_obj', db2) \<Rightarrow>
                        (case http_response_redirect env (original_url url_obj') of
                           Inl e \<Rightarrow> (Inl e, db2)
                         | Inr location \<Rightarrow> (Inr (HttpResponseRedirect location), db2))))"

text \<open>
  The setting \<open>ATOMIC_REQUESTS\<close> belongs to the project's settings module, which is not
  among the sources, so it is a parameter. When it is set, Django runs the view inside
  one transaction and rolls the store back when the view raises; its default is off.
\<close>

definition make_view_atomic ::
  "bool \<Rightarrow> (database \<Rightarrow> (error + response) \<times> database) \<Rightarrow> database
     \<Rightarrow> (error + response) \<times> database" where
  "make_view_atomic atomic_requests view db =
     (case view db of
        (Inl e, db') \<Rightarrow> (Inl e, if atomic_requests then db else db')
      | (Inr r, db') \<Rightarrow> (Inr r, db'))"

text \<open>
  The same view in the two steps that touch the store: the lookup, which reads the row
  into memory and decides, and the recording, which writes from the object in memory.
  Requests served in parallel interleave at this boundary.
\<close>

definition redirect_lookup :: "redirect_env \<Rightarrow> string \<Rightarrow> database \<Rightarrow> (error + response) + URL" where
  "redirect_lookup env code db =
     (case get_object_or_404 code db of
        Inl e \<Rightarrow> Inl (Inl e)
      | Inr url_obj \<Rightarrow>
          if is_expired (now_is_expired env) url_obj then Inl (Inr (Render_expired url_obj))
          else Inr url_obj)"

definition redirect_record ::
  "redirect_env \<Rightarrow> request \<Rightarrow> URL \<Rightarrow> database \<Rightarrow> (error + response) \<times> database" where
  "redirect_record env request url_obj db =
     (let user_agent_string =
            (case META request ''HTTP_USER_AGENT'' of Some s \<Rightarrow> s | None \<Rightarrow> []);
          user_agent_data = parse_user_agent (parse env) user_agent_string
      in case Click_objects_create env url_obj (get_client_ip request) user_agent_string
                (META request ''HTTP_REFERER'') user_agent_data db of
           Inl e \<Rightarrow> (Inl e, db)
         | Inr db1 \<Rightarrow>
             (case increment_click env url_obj db1 of
                Inl e \<Rightarrow> (Inl e, db1)
              | Inr (url_obj', db2) \<Rightarrow>
                  (case http_response_redirect env (original_url url_obj') of
                     Inl e \<Rightarrow> (Inl e, db2)
                   | Inr location \<Rightarrow> (Inr (HttpResponseRedirect location), db2))))"

text \<open>
  Two requests for the same code that overlap: both lookups read the store before either
  request records its click.
\<close>

definition redirect_overlapped ::
  "redirect_env \<Rightarrow> request \<Rightarrow> redirect_env \<Rightarrow> request \<Rightarrow> string \<Rightarrow> database \<Rightarrow> database" where
  "redirect_overlapped env1 request1 env2 request2 code db =
     (case (redirect_lookup env1 code db, redirect_lookup env2 code db) of
        (Inr url_obj1, Inr url_obj2) \<Rightarrow>
          snd (redirect_record env2 request2 url_obj2
                 (snd (redirect_record env1 request1 url_obj1 db)))
      | _ \<Rightarrow> db)"

text \<open>Requests served one after the other, each with its own environment.\<close>

fun redirect_all ::
  "bool \<Rightarrow> (redirect_env \<times> request) list \<Rightarrow> string \<Rightarrow> database \<Rightarrow> database" where
  "redirect_all atomic_requests [] code db = db"
| "redirect_all atomic_requests ((env, request) # rest) code db =
     redirect_all atomic_requests rest code
       (snd (make_view_atomic atomic_requests (redirect_url env request code) db))"

text \<open>
  The store is well formed when primary keys and short codes are unique: the
  \<open>unique=True\<close> index on \<open>short_code\<close> and the primary key index keep it so.
\<close>

definition wf_db :: "database \<Rightarrow> bool" where
  "wf_db db = (distinct (map pk (url_table db)) \<and> distinct (map short_code (url_table db)))"

text \<open>
  The row \<open>Click.objects.create\<close> inserts for a request into a click table \<open>cs\<close>,
  written out field by field for the statements below, and the click table after a list
  of requests for the link \<open>u\<close>, each adding its row.
\<close>

definition new_click :: "redirect_env \<Rightarrow> request \<Rightarrow> URL \<Rightarrow> Click list \<Rightarrow> Click" where
  "new_click env request u cs =
     \<lparr> click_pk = next_pk (map click_pk cs),
       url_id = pk u,
       clicked_at = now_clicked_at env,
       ip_address = get_prep_value (clean_ipv6_address env)
                      (case get_client_ip request of Some ip \<Rightarrow> ip | None \<Rightarrow> []),
       user_agent = (case META request ''HTTP_USER_AGENT'' of Some s \<Rightarrow> s | None \<Rightarrow> []),
       referer = META request ''HTTP_REFERER'',
       browser = browser_family (parse env
                   (case META request ''HTTP_USER_AGENT'' of Some s \<Rightarrow> s | None \<Rightarrow> []))
                 @ '' '' @
                 browser_version_string (parse env
                   (case META request ''HTTP_USER_AGENT'' of Some s \<Rightarrow> s | None \<Rightarrow> [])),
       os = os_family (parse env
                   (case META request ''HTTP_USER_AGENT'' of Some s \<Rightarrow> s | None \<Rightarrow> []))
            @ '' '' @
            os_version_string (parse env
                   (case META request ''HTTP_USER_AGENT'' of Some s \<Rightarrow> s | None \<Rightarrow> [])),
       device = device_family (parse env
                   (case META request ''HTTP_USER_AGENT'' of Some s \<Rightarrow> s | None \<Rightarrow> [])),
       country = [],
       city = [] \<rparr>"

fun recorded_clicks :: "(redirect_env \<times> request) list \<Rightarrow> URL \<Rightarrow> Click list \<Rightarrow> Click list" where
  "recorded_clicks [] u cs = cs"
| "recorded_clicks ((env, request) # rest) u cs =
     recorded_clicks rest u (cs @ [new_click env request u cs])"

text \<open>The store after both writes of a request for the link \<open>u\<close>.\<close>

definition click_recorded :: "redirect_env \<Rightarrow> request \<Rightarrow> URL \<Rightarrow> database \<Rightarrow> database" where
  "click_recorded env request u db =
     \<lparr> url_table = map (\<lambda>r. if r = u
                   then u\<lparr>click_count := click_count u + 1,
                         last_clicked := Some (now_increment_click env)\<rparr>
                   else r) (url_table db),
       click_table = click_table db @ [new_click env request u (click_table db)] \<rparr>"

text \<open>The address of a request is usable when the field does not write it as NULL.\<close>

definition has_client_address :: "redirect_env \<Rightarrow> request \<Rightarrow> bool" where
  "has_client_address env request =
     (case get_client_ip request of
        None \<Rightarrow> False
      | Some ip \<Rightarrow> get_prep_value (clean_ipv6_address env) ip \<noteq> [])"

section \<open>Strings, integers and dates of the Python runtime\<close>

text \<open>
  \<open>str.isspace\<close> on the characters a \<open>char\<close> can hold (code points below 256):
  tab, line feed, vertical tab, form feed, carriage return, the four separators
  0x1C to 0x1F, space, 0x85 and 0xA0. \<open>str.strip()\<close> removes them at both ends.
\<close>

definition isspace :: "char \<Rightarrow> bool" where
  "isspace c = (c \<in> set [CHR 0x09, CHR 0x0A, CHR 0x0B, CHR 0x0C, CHR 0x0D, CHR 0x1C, CHR 0x1D,
                          CHR 0x1E, CHR 0x1F, CHR 0x20, CHR 0x85, CHR 0xA0])"

definition strip :: "string \<Rightarrow> string" where
  "strip s = rev (dropWhile isspace (rev (dropWhile isspace s)))"

definition startswith :: "string \<Rightarrow> string \<Rightarrow> bool" where
  "startswith s p = (take (length p) s = p)"

text \<open>\<open>dict.get(key, '')\<close> on a form's fields.\<close>

definition get_or_empty :: "(string \<rightharpoonup> string) \<Rightarrow> string \<Rightarrow> string" where
  "get_or_empty d k = (case d k of Some v \<Rightarrow> v | None \<Rightarrow> [])"

text \<open>
  \<open>int(s)\<close> for a string. The whitespace it drops at both ends is narrower than that
  of \<open>str.strip\<close>: tab, line feed, vertical tab, form feed, carriage return and
  space, and of the characters from 0x80 on those that are spaces, 0x85 and 0xA0; the
  separators 0x1C to 0x1F are not dropped. One sign may lead, and the rest is decimal
  digits, where single underscores may stand between digits. A string of more than 640
  digits is refused when the interpreter's limit (\<open>sys.get_int_max_str_digits()\<close>,
  4300 unless configured, 0 for none) is set and exceeded; underscores do not count.
  \<open>None\<close> is \<open>ValueError\<close>.
\<close>

definition int_isspace :: "char \<Rightarrow> bool" where
  "int_isspace c = (c \<in> set [CHR 0x09, CHR 0x0A, CHR 0x0B, CHR 0x0C, CHR 0x0D, CHR 0x20,
                              CHR 0x85, CHR 0xA0])"

definition int_strip :: "string \<Rightarrow> string" where
  "int_strip s = rev (dropWhile int_isspace (rev (dropWhile int_isspace s)))"

definition digit_value :: "char \<Rightarrow> nat option" where
  "digit_value c = map_of (zip ''0123456789'' [0, 1, 2, 3, 4, 5, 6, 7, 8, 9]) c"

fun int_digits :: "string \<Rightarrow> bool \<Rightarrow> nat \<Rightarrow> nat option" where
  "int_digits [] after_digit acc = (if after_digit then Some acc else None)"
| "int_digits (c # cs) after_digit acc =
     (if c = CHR ''_'' then (if after_digit then int_digits cs False acc else None)
      else case digit_value c of
        None \<Rightarrow> None
      | Some d \<Rightarrow> int_digits cs True (10 * acc + d))"

definition int_magnitude :: "nat \<Rightarrow> string \<Rightarrow> nat option" where
  "int_magnitude max_str_digits ds =
     (let n = length (filter (\<lambda>c. c \<noteq> CHR ''_'') ds)
      in if 640 < n \<and> 0 < max_str_digits \<and> max_str_digits < n then None
         else int_digits ds False 0)"

definition py_int :: "nat \<Rightarrow> string \<Rightarrow> int option" where
  "py_int max_str_digits s =
     (case int_strip s of
        [] \<Rightarrow> None
      | c # cs \<Rightarrow>
          if c = CHR ''-'' then map_option (\<lambda>n. - int n) (int_magnitude max_str_digits cs)
          else if c = CHR ''+'' then map_option int (int_magnitude max_str_digits cs)
          else map_option int (int_magnitude max_str_digits (c # cs)))"

text \<open>
  \<open>timedelta(days=d)\<close> holds at most 999999999 days either way, and a \<open>datetime\<close>
  lies between 0001-01-01T00:00:00 and 9999-12-31T23:59:59.999999, which is 3652059 days;
  outside, both raise \<open>OverflowError\<close>. Durations are in microseconds.
\<close>

definition microseconds_per_day :: int where
  "microseconds_per_day = 86400000000"

definition datetime_max :: datetime where
  "datetime_max = 3652059 * microseconds_per_day - 1"

definition timedelta :: "int \<Rightarrow> error + int" where
  "timedelta days =
     (if \<bar>days\<bar> \<le> 999999999 then Inr (days * microseconds_per_day) else Inl OverflowError)"

definition datetime_add :: "datetime \<Rightarrow> int \<Rightarrow> error + datetime" where
  "datetime_add t delta =
     (if 0 \<le> t + delta \<and> t + delta \<le> datetime_max then Inr (t + delta) else Inl OverflowError)"

section \<open>Short code allocation\<close>

text \<open>
  What one allocating request takes from outside the program: the clock reading of
  \<open>timezone.now()\<close> in the expiry branch, the \<open>auto_now_add\<close> reading of
  \<open>created_at\<close>, the draws of the global random generator (\<open>random_draws env i\<close> is
  the i-th raw draw from here on), whether the store refuses the INSERT, the
  \<open>DOMAIN\<close> setting when the settings module has one, and the interpreter's limit on
  the digits of an integer read from a string.
\<close>

record create_env =
  timezone_now :: datetime
  now_created_at :: datetime
  random_draws :: "nat \<Rightarrow> nat"
  url_insert_fails :: bool
  DOMAIN :: "string option"
  int_max_str_digits :: nat

definition ascii_lowercase :: string where
  "ascii_lowercase = ''abcdefghijklmnopqrstuvwxyz''"

definition ascii_uppercase :: string where
  "ascii_uppercase = ''ABCDEFGHIJKLMNOPQRSTUVWXYZ''"

definition ascii_letters :: string where
  "ascii_letters = ascii_lowercase @ ascii_uppercase"

definition digits :: string where
  "digits = ''0123456789''"

definition characters :: string where
  "characters = ascii_letters @ digits"

text \<open>\<open>random.choice(seq)\<close> returns \<open>seq[k]\<close> for a \<open>k\<close> below \<open>len(seq)\<close> drawn from the generator.\<close>

definition random_choice :: "nat \<Rightarrow> string \<Rightarrow> char" where
  "random_choice draw seq = seq ! (draw mod length seq)"

text \<open>The candidate the loop builds from the six draws starting at position \<open>pos\<close>.\<close>

definition candidate :: "(nat \<Rightarrow> nat) \<Rightarrow> nat \<Rightarrow> string" where
  "candidate draws pos = map (\<lambda>i. random_choice (draws (pos + i)) characters) [0..<6]"

text \<open>
  \<open>URL.generate_short_code\<close>: \<open>while True\<close>, so a run that never finds a free code
  does not return, which is the value \<open>None\<close>.
\<close>

partial_function (option) generate_short_code ::
  "(nat \<Rightarrow> nat) \<Rightarrow> nat \<Rightarrow> database \<Rightarrow> string option" where
  "generate_short_code draws pos db =
     (if \<not> short_code_exists (candidate draws pos) db then Some (candidate draws pos)
      else generate_short_code draws (pos + 6) db)"

text \<open>
  \<open>URL(original_url=..., title=..., description=..., created_by=...)\<close>: the other
  fields take their defaults. An object not saved yet has no primary key, written 0 here:
  the keys the store gives out start at 1.
\<close>

definition URL_init :: "string \<Rightarrow> string \<Rightarrow> string \<Rightarrow> nat option \<Rightarrow> URL" where
  "URL_init url ttl descr owner =
     \<lparr> pk = 0, original_url = url, short_code = [], title = ttl, description = descr,
       created_at = 0, created_by = owner, is_active = True, expires_at = None,
       click_count = 0, last_clicked = None \<rparr>"

text \<open>
  \<open>URL.save()\<close> of a new object: an empty \<open>short_code\<close> is generated first, then the
  row is inserted. The \<open>unique=True\<close> index refuses a code the table already holds.
\<close>

definition URL_save :: "create_env \<Rightarrow> URL \<Rightarrow> database \<Rightarrow> (error + URL \<times> database) option" where
  "URL_save env self db =
     (case (if short_code self = [] then generate_short_code (random_draws env) 0 db
            else Some (short_code self)) of
        None \<Rightarrow> None
      | Some code \<Rightarrow>
          Some (if url_insert_fails env then Inl DatabaseError
                else if short_code_exists code db then Inl IntegrityError
                else let row = self\<lparr>short_code := code,
                                     pk := next_pk (map pk (url_table db)),
                                     created_at := now_created_at env\<rparr>
                     in Inr (row, db\<lparr>url_table := url_table db @ [row]\<rparr>)))"

definition get_short_url :: "string option \<Rightarrow> URL \<Rightarrow> string" where
  "get_short_url domain_setting self =
     (case domain_setting of Some d \<Rightarrow> d | None \<Rightarrow> ''http://localhost:8000'')
       @ ''/'' @ short_code self"

text \<open>
  The expiry block of \<open>create_short_url\<close>: only \<open>ValueError\<close> is caught there, so the
  \<open>OverflowError\<close> of \<open>timedelta\<close> or of the addition leaves the block.
\<close>

definition handle_expiration :: "create_env \<Rightarrow> string option \<Rightarrow> URL \<Rightarrow> error + URL" where
  "handle_expiration env expires_in_days url_obj =
     (case expires_in_days of
        None \<Rightarrow> Inr url_obj
      | Some s \<Rightarrow>
          if s = [] then Inr url_obj
          else case py_int (int_max_str_digits env) s of
            None \<Rightarrow> Inr url_obj
          | Some days \<Rightarrow>
              (case timedelta days of
                 Inl e \<Rightarrow> Inl e
               | Inr delta \<Rightarrow>
                   (case datetime_add (timezone_now env) delta of
                      Inl e \<Rightarrow> Inl e
                    | Inr t \<Rightarrow> Inr (url_obj\<lparr>expires_at := Some t\<rparr>))))"

text \<open>
  The route of \<open>url_detail\<close> is \<open><str:short_code>/stats/\<close>, and the \<open>str\<close> converter
  matches a non-empty text without a slash; \<open>redirect('url_detail', short_code=...)\<close>
  raises \<open>NoReverseMatch\<close> for any other code.
\<close>

definition str_converter :: "string \<Rightarrow> bool" where
  "str_converter s = (s \<noteq> [] \<and> CHR ''/'' \<notin> set s)"

text \<open>
  The last two statements of the \<open>try\<close> block of \<open>create_short_url\<close>, after
  \<open>save()\<close>: the success message is queued, then the redirect to the detail page is
  built. When that raises, the handler queues the error message and redirects home; the
  row is stored by then.
\<close>

definition success_response :: "create_env \<Rightarrow> URL \<Rightarrow> response" where
  "success_response env saved =
     (if str_converter (short_code saved)
      then Redirect_url_detail [Short_URL_created (get_short_url (DOMAIN env) saved)]
             (short_code saved)
      else Redirect_home [Short_URL_created (get_short_url (DOMAIN env) saved),
             Error_creating_short_URL NoReverseMatch])"

text \<open>
  \<open>create_short_url(request)\<close>. Every exception inside the \<open>try\<close> block ends in the
  error message and the redirect home; \<open>None\<close> is a call that never returns. The
  decorators stand outside the view and are not part of it here: \<open>require_http_methods\<close>
  lets only GET and POST through, \<open>ratelimit\<close> counts requests per address. Column
  lengths (\<open>max_length\<close>) are not checked by \<open>save()\<close> and are left to the store.
\<close>

definition create_short_url ::
  "create_env \<Rightarrow> request \<Rightarrow> database \<Rightarrow> (response \<times> database) option" where
  "create_short_url env request db =
     (if http_method request = ''POST'' then
        let original = strip (get_or_empty (POST request) ''original_url'');
            ttl = strip (get_or_empty (POST request) ''title'');
            descr = strip (get_or_empty (POST request) ''description'');
            custom_code = strip (get_or_empty (POST request) ''custom_code'');
            expires_in_days = POST request ''expires_in_days''
        in if original = [] then Some (Redirect_home [Please_enter_a_valid_URL], db)
           else
             let original = (if \<not> (startswith original ''http://'' \<or> startswith original ''https://'')
                             then ''https://'' @ original else original);
                 url_obj = URL_init original ttl descr (user request)
             in if custom_code \<noteq> [] \<and> short_code_exists custom_code db
                then Some (Redirect_home [Custom_code_already_exists], db)
                else
                  let url_obj = (if custom_code \<noteq> [] then url_obj\<lparr>short_code := custom_code\<rparr>
                                 else url_obj)
                  in case handle_expiration env expires_in_days url_obj of
                       Inl e \<Rightarrow> Some (Redirect_home [Error_creating_short_URL e], db)
                     | Inr url_obj \<Rightarrow>
                         (case URL_save env url_obj db of
                            None \<Rightarrow> None
                          | Some (Inl e) \<Rightarrow>
                              Some (Redirect_home [Error_creating_short_URL e], db)
                          | Some (Inr (saved, db')) \<Rightarrow>
                              Some (success_response env saved, db'))
      else Some (Redirect_home [], db))"

text \<open>
  \<open>api_create_url(request)\<close>. \<open>data.get\<close> needs a JSON object and \<open>.strip()\<close> a
  string; anything else is an \<open>AttributeError\<close>, answered with status 500. A
  \<open>JObj\<close> lists the items of the parsed dictionary, one per key.
\<close>

definition api_create_url ::
  "create_env \<Rightarrow> request \<Rightarrow> database \<Rightarrow> (response \<times> database) option" where
  "api_create_url env request db =
     (if http_method request = ''POST'' then
        case body request of
          Inl e \<Rightarrow>
            Some (if e = JSONDecodeError then JsonResponse Json_error_Invalid_JSON 400
                  else JsonResponse (Json_error_exception e) 500, db)
        | Inr (JObj entries) \<Rightarrow>
            (case (case map_of entries ''url'' of None \<Rightarrow> Some [] | Some (JStr s) \<Rightarrow> Some s
                   | Some _ \<Rightarrow> None) of
               None \<Rightarrow> Some (JsonResponse (Json_error_exception AttributeError) 500, db)
             | Some raw \<Rightarrow>
                 let original = strip raw
                 in if original = [] then Some (JsonResponse Json_error_URL_is_required 400, db)
                    else
                      let original = (if \<not> (startswith original ''http://''
                                                \<or> startswith original ''https://'')
                                      then ''https://'' @ original else original)
                      in case URL_save env (URL_init original [] [] (user request)) db of
                           None \<Rightarrow> None
                         | Some (Inl e) \<Rightarrow> Some (JsonResponse (Json_error_exception e) 500, db)
                         | Some (Inr (saved, db')) \<Rightarrow>
                             Some (JsonResponse
                                     (Json_created (get_short_url (DOMAIN env) saved)
                                        (short_code saved) (original_url saved)) 200, db'))
        | Inr _ \<Rightarrow> Some (JsonResponse (Json_error_exception AttributeError) 500, db)
      else Some (JsonResponse Json_error_Method_not_allowed 405, db))"

text \<open>
  The stores the program can reach from the empty one: by either creation endpoint, and
  by the redirect view with or without \<open>ATOMIC_REQUESTS\<close>.
\<close>

inductive reachable :: "database \<Rightarrow> bool" where
  empty_store: "reachable \<lparr> url_table = [], click_table = [] \<rparr>"
| after_create:
    "reachable db \<Longrightarrow> create_short_url env request db = Some (r, db') \<Longrightarrow> reachable db'"
| after_api_create:
    "reachable db \<Longrightarrow> api_create_url env request db = Some (r, db') \<Longrightarrow> reachable db'"
| after_redirect:
    "reachable db \<Longrightarrow>
     make_view_atomic atomic_requests (redirect_url renv request code) db = (res, db') \<Longrightarrow>
     reachable db'"


text \<open>
  The row \<open>URL.save\<close> inserts for an object whose code is \<open>code\<close>, and the row
  \<open>create_short_url\<close> inserts for a form, written out for the statements below.
\<close>

definition new_url_row :: "create_env \<Rightarrow> URL \<Rightarrow> string \<Rightarrow> database \<Rightarrow> URL" where
  "new_url_row env self code db =
     self\<lparr>short_code := code, pk := next_pk (map pk (url_table db)),
          created_at := now_created_at env\<rparr>"

definition created_row ::
  "create_env \<Rightarrow> request \<Rightarrow> string \<Rightarrow> datetime option \<Rightarrow> database \<Rightarrow> URL" where
  "created_row env request code expiry db =
     \<lparr> pk = next_pk (map pk (url_table db)),
       original_url =
         (if startswith (strip (get_or_empty (POST request) ''original_url'')) ''http://''
             \<or> startswith (strip (get_or_empty (POST request) ''original_url'')) ''https://''
          then strip (get_or_empty (POST request) ''original_url'')
          else ''https://'' @ strip (get_or_empty (POST request) ''original_url'')),
       short_code = code,
       title = strip (get_or_empty (POST request) ''title''),
       description = strip (get_or_empty (POST request) ''description''),
       created_at = now_created_at env,
       created_by = user request,
       is_active = True,
       expires_at = expiry,
       click_count = 0,
       last_clicked = None \<rparr>"

text \<open>The row \<open>api_create_url\<close> inserts for the URL text \<open>raw\<close> of the body.\<close>

definition api_created_row ::
  "create_env \<Rightarrow> request \<Rightarrow> string \<Rightarrow> string \<Rightarrow> database \<Rightarrow> URL" where
  "api_created_row env request raw code db =
     \<lparr> pk = next_pk (map pk (url_table db)),
       original_url =
         (if startswith (strip raw) ''http://'' \<or> startswith (strip raw) ''https://''
          then strip raw else ''https://'' @ strip raw),
       short_code = code,
       title = [],
       description = [],
       created_at = now_created_at env,
       created_by = user request,
       is_active = True,
       expires_at = None,
       click_count = 0,
       last_clicked = None \<rparr>"

section \<open>Concrete inputs\<close>

text \<open>A small store and a request, used to run the definitions.\<close>

definition demo_url :: URL where
  "demo_url = \<lparr> pk = 1, original_url = ''https://foo.com'', short_code = ''abc123'',
      title = [], description = [], created_at = 1000, created_by = None, is_active = True,
      expires_at = Some 5000, click_count = 7, last_clicked = None \<rparr>"

definition demo_inactive :: URL where
  "demo_inactive = \<lparr> pk = 2, original_url = ''http://x.com'', short_code = ''aaaaaa'',
      title = [], description = [], created_at = 900, created_by = Some 4, is_active = False,
      expires_at = None, click_count = 3, last_clicked = Some 950 \<rparr>"

definition demo_db :: database where
  "demo_db = \<lparr> url_table = [demo_url, demo_inactive], click_table = [] \<rparr>"

definition demo_request :: request where
  "demo_request = \<lparr> http_method = ''GET'', POST = Map.empty,
      META = [''REMOTE_ADDR'' \<mapsto> ''10.0.0.1'', ''HTTP_USER_AGENT'' \<mapsto> ''curl/8''],
      user = None, body = Inl JSONDecodeError \<rparr>"

definition demo_forwarded :: request where
  "demo_forwarded = \<lparr> http_method = ''GET'', POST = Map.empty,
      META = [''REMOTE_ADDR'' \<mapsto> ''10.0.0.1'', ''HTTP_X_FORWARDED_FOR'' \<mapsto> '',10.0.0.9''],
      user = None, body = Inl JSONDecodeError \<rparr>"

definition demo_redirect :: "string \<Rightarrow> error + string" where
  "demo_redirect target = (if target = ''http://['' then Inl ValueError else Inr target)"

definition demo_parse :: "string \<Rightarrow> UserAgent" where
  "demo_parse s = \<lparr> browser_family = ''Other'', browser_version_string = [],
      os_family = ''Other'', os_version_string = [], device_family = s \<rparr>"

definition demo_env :: "datetime \<Rightarrow> bool \<Rightarrow> redirect_env" where
  "demo_env t update_fails = \<lparr> now_is_expired = t, now_clicked_at = t + 1,
      now_increment_click = t + 2, parse = demo_parse,
      click_insert_fails = False, url_update_fails = update_fails,
      clean_ipv6_address = (\<lambda>v. None), http_response_redirect = demo_redirect \<rparr>"

definition demo_click :: "datetime \<Rightarrow> nat \<Rightarrow> Click" where
  "demo_click t k = \<lparr> click_pk = k, url_id = 1, clicked_at = t,
      ip_address = ''10.0.0.1'', user_agent = ''curl/8'', referer = None,
      browser = ''Other '', os = ''Other '', device = ''curl/8'', country = [], city = [] \<rparr>"

definition demo_create_env :: "(nat \<Rightarrow> nat) \<Rightarrow> create_env" where
  "demo_create_env draws = \<lparr> timezone_now = 63900000000000000,
      now_created_at = 63900000000000001, random_draws = draws,
      url_insert_fails = False, DOMAIN = None, int_max_str_digits = 4300 \<rparr>"

definition demo_draws :: "nat \<Rightarrow> nat" where
  "demo_draws i = (if i < 6 then 62 else 1)"

definition demo_post :: "(string \<rightharpoonup> string) \<Rightarrow> request" where
  "demo_post form = \<lparr> http_method = ''POST'', POST = form, META = Map.empty,
      user = Some 4, body = Inl JSONDecodeError \<rparr>"

definition demo_api :: "string \<Rightarrow> request" where
  "demo_api url = \<lparr> http_method = ''POST'', POST = Map.empty, META = Map.empty,
      user = None, body = Inr (JObj [(''url'', JStr url)]) \<rparr>"

definition demo_row :: "string \<Rightarrow> string \<Rightarrow> datetime option \<Rightarrow> nat option \<Rightarrow> URL" where
  "demo_row url code expiry owner = \<lparr> pk = 3, original_url = url, short_code = code,
      title = [], description = [], created_at = 63900000000000001, created_by = owner,
      is_active = True, expires_at = expiry, click_count = 0, last_clicked = None \<rparr>"

section \<open>Lookup and uniqueness\<close>

lemma filter_unique_code:
  "distinct (map short_code xs) \<Longrightarrow> u \<in> set xs \<Longrightarrow> is_active u \<Longrightarrow>
   filter (\<lambda>r. short_code r = short_code u \<and> is_active r) xs = [u]"
proof (induction xs)
  case Nil
  then show ?case by simp
next
  case (Cons x xs)
  show ?case
  proof (cases "x = u")
    case True
    from Cons.prems(1) have "\<forall>r \<in> set xs. short_code r \<noteq> short_code x"
      by (metis distinct.simps(2) image_eqI list.simps(9) set_map)
    then have "filter (\<lambda>r. short_code r = short_code u \<and> is_active r) xs = []"
      using True by (auto simp: filter_empty_conv)
    with True Cons.prems(3) show ?thesis by simp
  next
    case False
    with Cons.prems have in_xs: "u \<in> set xs" by simp
    with Cons.prems(1) have "short_code x \<noteq> short_code u" by auto
    moreover from Cons.prems(1) have "distinct (map short_code xs)" by simp
    ultimately show ?thesis using Cons.IH in_xs Cons.prems(3) by simp
  qed
qed

lemma get_object_or_404_found:
  "wf_db db \<Longrightarrow> u \<in> set (url_table db) \<Longrightarrow> is_active u \<Longrightarrow>
   get_object_or_404 (short_code u) db = Inr u"
  by (simp add: get_object_or_404_def wf_db_def filter_unique_code)

lemma get_object_or_404_missing:
  "\<forall>u \<in> set (url_table db). short_code u = code \<longrightarrow> \<not> is_active u \<Longrightarrow>
   get_object_or_404 code db = Inl Http404"
  by (auto simp: get_object_or_404_def filter_empty_conv split: list.splits)

lemma unique_pk_eq:
  "distinct (map pk xs) \<Longrightarrow> r \<in> set xs \<Longrightarrow> u \<in> set xs \<Longrightarrow> pk r = pk u \<Longrightarrow> r = u"
  by (simp add: distinct_map inj_on_def)

lemma map_update_unique_pk:
  assumes "distinct (map pk xs)" and "u \<in> set xs"
  shows "map (\<lambda>r. if pk r = pk u then f r else r) xs = map (\<lambda>r. if r = u then f u else r) xs"
proof (rule map_cong[OF refl])
  fix r assume "r \<in> set xs"
  with assms show "(if pk r = pk u then f r else r) = (if r = u then f u else r)"
    using unique_pk_eq[of xs r u] by auto
qed

lemma redirect_url_split:
  "redirect_url env request code db =
     (case redirect_lookup env code db of
        Inl r \<Rightarrow> (r, db)
      | Inr url_obj \<Rightarrow> redirect_record env request url_obj db)"
  by (simp add: redirect_url_def redirect_lookup_def redirect_record_def split: sum.splits)

section \<open>Properties of the redirect path\<close>

lemma get_object_or_404_InrD:
  assumes "get_object_or_404 code db = Inr u"
  shows "u \<in> set (url_table db) \<and> short_code u = code \<and> is_active u"
proof -
  from assms have "filter (\<lambda>r. short_code r = code \<and> is_active r) (url_table db) = [u]"
    by (auto simp: get_object_or_404_def split: list.splits)
  then have "u \<in> set (filter (\<lambda>r. short_code r = code \<and> is_active r) (url_table db))"
    by simp
  then show ?thesis by simp
qed

lemma redirect_record_cases:
  assumes "wf_db db" and "u \<in> set (url_table db)"
  shows "redirect_record env request u db =
     (if click_insert_fails env then (Inl DatabaseError, db)
      else if \<not> has_client_address env request then (Inl IntegrityError, db)
      else if url_update_fails env
      then (Inl DatabaseError,
            db\<lparr>click_table := click_table db @ [new_click env request u (click_table db)]\<rparr>)
      else (case http_response_redirect env (original_url u) of
              Inl e \<Rightarrow> Inl e
            | Inr location \<Rightarrow> Inr (HttpResponseRedirect location),
            click_recorded env request u db))"
proof -
  have ex: "\<exists>r \<in> set (url_table db). pk r = pk u" using assms(2) by blast
  have same: "\<forall>r \<in> set (url_table db). pk r = pk u \<longrightarrow> r = u"
    using assms(1,2) unique_pk_eq[of "url_table db" _ u] by (auto simp: wf_db_def)
  have rec: "db\<lparr>click_table := cs, url_table := us\<rparr> = \<lparr> url_table = us, click_table = cs \<rparr>"
    for cs us by (cases db) simp
  show ?thesis
    using ex same
    by (auto simp: redirect_record_def Click_objects_create_def increment_click_def
        save_update_fields_def parse_user_agent_def new_click_def click_recorded_def
        has_client_address_def Let_def rec
        split: option.splits sum.splits)
qed

lemma redirect_url_ok:
  assumes "wf_db db" and "u \<in> set (url_table db)" and "is_active u"
    and "\<not> is_expired (now_is_expired env) u"
    and "has_client_address env request"
    and "\<not> click_insert_fails env" and "\<not> url_update_fails env"
  shows "redirect_url env request (short_code u) db =
     (case http_response_redirect env (original_url u) of
        Inl e \<Rightarrow> Inl e
      | Inr location \<Rightarrow> Inr (HttpResponseRedirect location),
      click_recorded env request u db)"
  using assms
  by (simp add: redirect_url_split redirect_lookup_def get_object_or_404_found
      redirect_record_cases)

text \<open>
  C1, as amended. A code whose link exists, is active and is not expired, on a request
  whose client address (the text before the first comma of \<open>X-Forwarded-For\<close>, else
  \<open>REMOTE_ADDR\<close>) is not empty, with both writes accepted by the store: the click table
  gains exactly one row, holding the address (an IPv6 address in its canonical text), the
  user agent string, the referer and the parsed browser, os and device; the link's row
  has its \<open>click_count\<close> one higher and \<open>last_clicked\<close> set to the clock reading of
  \<open>increment_click\<close>; every other row is as it was. The answer is the redirect to the
  link's \<open>original_url\<close> when the constructor of the redirect accepts that target; when
  it raises, it does so after both writes, which stay unless \<open>ATOMIC_REQUESTS\<close> rolls
  the request back.
\<close>

theorem redirect_url_records_click:
  assumes "wf_db db" and "u \<in> set (url_table db)" and "is_active u"
    and "\<not> is_expired (now_is_expired env) u"
    and "has_client_address env request"
    and "\<not> click_insert_fails env" and "\<not> url_update_fails env"
  shows "make_view_atomic atomic_requests (redirect_url env request (short_code u)) db =
     (case http_response_redirect env (original_url u) of
        Inr location \<Rightarrow>
          (Inr (HttpResponseRedirect location), click_recorded env request u db)
      | Inl e \<Rightarrow>
          (Inl e, if atomic_requests then db else click_recorded env request u db))"
  using redirect_url_ok[OF assms]
  by (simp add: make_view_atomic_def split: sum.splits)

text \<open>
  C2. An active code whose \<open>expires_at\<close> is set and earlier than the clock reading: the
  view renders the expired page with the link, and the store is unchanged, so no click
  is created and \<open>click_count\<close> and \<open>last_clicked\<close> stay as they were.
\<close>

theorem redirect_url_expired:
  assumes "wf_db db" and "u \<in> set (url_table db)" and "is_active u"
    and "expires_at u = Some e" and "e < now_is_expired env"
  shows "redirect_url env request (short_code u) db = (Inr (Render_expired u), db)"
  using assms
  by (simp add: redirect_url_def get_object_or_404_found is_expired_def)

text \<open>
  C3. A code that no row carries, or that only inactive rows carry: the view raises
  \<open>Http404\<close>, and the store is unchanged, so no click is created and no counter moves.
\<close>

theorem redirect_url_not_found:
  assumes "\<forall>u \<in> set (url_table db). short_code u = code \<longrightarrow> \<not> is_active u"
  shows "redirect_url env request code db = (Inl Http404, db)"
  using assms by (simp add: redirect_url_def get_object_or_404_missing)

text \<open>
  C6, as amended. The click INSERT and the counter UPDATE are two writes; the view opens
  no transaction. Every call ends in one of three ways: the store is as it was and the
  answer is no redirect; both the click row and the incremented counter are there, and
  the answer is the redirect or, with \<open>ATOMIC_REQUESTS\<close> off, the exception the redirect's
  constructor raised after both writes; or, only when \<open>ATOMIC_REQUESTS\<close> is off and the
  store refuses the UPDATE, the view raises \<open>DatabaseError\<close> and the click row stays
  without the increment. The counter never moves without the click row.
\<close>

theorem redirect_url_both_or_neither:
  assumes "wf_db db"
    and "make_view_atomic atomic_requests (redirect_url env request code) db = (r, db')"
  shows "(db' = db \<and> (\<forall>location. r \<noteq> Inr (HttpResponseRedirect location)))
       \<or> (\<exists>u. u \<in> set (url_table db) \<and> short_code u = code
             \<and> db' = click_recorded env request u db
             \<and> (case http_response_redirect env (original_url u) of
                   Inr location \<Rightarrow> r = Inr (HttpResponseRedirect location)
                 | Inl e \<Rightarrow> \<not> atomic_requests \<and> r = Inl e))
       \<or> (\<not> atomic_requests \<and> url_update_fails env \<and> r = Inl DatabaseError
             \<and> (\<exists>u. u \<in> set (url_table db) \<and> short_code u = code
                   \<and> db' = db\<lparr>click_table := click_table db
                               @ [new_click env request u (click_table db)]\<rparr>))"
proof (cases "redirect_lookup env code db")
  case (Inl early)
  then have "redirect_url env request code db = (early, db)"
    by (simp add: redirect_url_split)
  moreover from Inl have "\<forall>location. early \<noteq> Inr (HttpResponseRedirect location)"
    by (auto simp: redirect_lookup_def split: sum.splits if_splits)
  ultimately show ?thesis using assms(2)
    by (auto simp: make_view_atomic_def split: sum.splits)
next
  case (Inr u)
  then have "get_object_or_404 code db = Inr u"
    by (auto simp: redirect_lookup_def split: sum.splits if_splits)
  then have mem: "u \<in> set (url_table db)" "short_code u = code"
    using get_object_or_404_InrD by blast+
  from Inr have "redirect_url env request code db = redirect_record env request u db"
    by (simp add: redirect_url_split)
  then show ?thesis
    using assms(2) mem redirect_record_cases[OF assms(1) mem(1), of env request]
    by (auto simp: make_view_atomic_def split: sum.splits if_splits)
qed

lemmas demo_defs = demo_url_def demo_inactive_def demo_db_def demo_request_def demo_parse_def
  demo_env_def demo_forwarded_def demo_redirect_def

lemmas demo_eval = demo_defs wf_db_def is_expired_def get_client_ip_def new_click_def next_pk_def
  get_prep_value_def has_client_address_def click_recorded_def demo_click_def Let_def

lemmas view_eval = make_view_atomic_def redirect_url_def get_object_or_404_def
  Click_objects_create_def increment_click_def save_update_fields_def parse_user_agent_def

theorem redirect_url_records_click_witness:
  "wf_db demo_db \<and> demo_url \<in> set (url_table demo_db) \<and> is_active demo_url
   \<and> \<not> is_expired (now_is_expired (demo_env 2000 False)) demo_url
   \<and> has_client_address (demo_env 2000 False) demo_request
   \<and> make_view_atomic True (redirect_url (demo_env 2000 False) demo_request ''abc123'') demo_db =
      (Inr (HttpResponseRedirect ''https://foo.com''),
       \<lparr> url_table = [demo_url\<lparr>click_count := 8, last_clicked := Some 2002\<rparr>, demo_inactive],
         click_table = [demo_click 2001 1] \<rparr>)"
  using redirect_url_records_click[of demo_db demo_url "demo_env 2000 False" demo_request True]
  by (simp add: demo_eval)

text \<open>
  The counterexample to C1 as stated: the link exists, is active and is not expired, and
  the request's \<open>X-Forwarded-For\<close> header starts with a comma, so the client address is
  the empty text; the INSERT of the click raises \<open>IntegrityError\<close>, and the call returns
  no redirect, records no click and moves no counter.
\<close>

theorem redirect_url_empty_address:
  "demo_url \<in> set (url_table demo_db) \<and> short_code demo_url = ''abc123''
   \<and> is_active demo_url \<and> \<not> is_expired 2000 demo_url
   \<and> get_client_ip demo_forwarded = Some []
   \<and> redirect_url (demo_env 2000 False) demo_forwarded ''abc123'' demo_db
       = (Inl IntegrityError, demo_db)"
  by (simp add: demo_eval view_eval)

theorem redirect_url_expired_witness:
  "wf_db demo_db \<and> demo_url \<in> set (url_table demo_db) \<and> is_active demo_url
   \<and> expires_at demo_url = Some 5000 \<and> 5000 < now_is_expired (demo_env 5001 False)
   \<and> redirect_url (demo_env 5001 False) demo_request ''abc123'' demo_db
       = (Inr (Render_expired demo_url), demo_db)"
  using redirect_url_expired[of demo_db demo_url 5000 "demo_env 5001 False" demo_request]
  by (simp add: demo_defs wf_db_def)

theorem redirect_url_not_found_witness:
  "redirect_url (demo_env 2000 False) demo_request ''aaaaaa'' demo_db = (Inl Http404, demo_db)
   \<and> redirect_url (demo_env 2000 False) demo_request ''nosuch'' demo_db = (Inl Http404, demo_db)"
  using redirect_url_not_found[of demo_db "''aaaaaa''" "demo_env 2000 False" demo_request]
    redirect_url_not_found[of demo_db "''nosuch''" "demo_env 2000 False" demo_request]
  by (simp add: demo_defs)

theorem redirect_url_both_or_neither_witness:
  "wf_db demo_db
   \<and> make_view_atomic True (redirect_url (demo_env 2000 True) demo_request ''abc123'') demo_db
       = (Inl DatabaseError, demo_db)
   \<and> (\<forall>location. (Inl DatabaseError :: error + response) \<noteq> Inr (HttpResponseRedirect location))"
  using redirect_url_both_or_neither[of demo_db True "demo_env 2000 True" demo_request
      "''abc123''" "Inl DatabaseError" demo_db]
  by (simp add: demo_eval view_eval)

text \<open>
  The counterexample to C6 as stated: with \<open>ATOMIC_REQUESTS\<close> off and the UPDATE
  refused, the call leaves the click row in the store and the link's row as it was.
\<close>

theorem redirect_url_click_without_increment:
  "make_view_atomic False (redirect_url (demo_env 2000 True) demo_request ''abc123'') demo_db
     = (Inl DatabaseError,
        \<lparr> url_table = [demo_url, demo_inactive], click_table = [demo_click 2001 1] \<rparr>)"
  by (simp add: demo_eval view_eval)

lemma map_replace_same:
  "f u' = f u \<Longrightarrow> map f (map (\<lambda>r. if r = u then u' else r) xs) = map f xs"
  by (induction xs) auto

lemma map_replace_self: "map (\<lambda>r. if r = u then u else r) xs = xs"
  by (induction xs) auto

lemma wf_db_replace_row:
  assumes "wf_db db" and "pk u' = pk u" and "short_code u' = short_code u"
  shows "wf_db \<lparr> url_table = map (\<lambda>r. if r = u then u' else r) (url_table db), click_table = cs \<rparr>"
  using assms(1) map_replace_same[of pk u' u "url_table db", OF assms(2)]
    map_replace_same[of short_code u' u "url_table db", OF assms(3)]
  by (simp add: wf_db_def del: map_map)

lemma recorded_clicks_pk:
  "pk u' = pk u \<Longrightarrow> recorded_clicks calls u' cs = recorded_clicks calls u cs"
proof (induction calls arbitrary: cs)
  case Nil
  show ?case by simp
next
  case (Cons call rest)
  obtain env request where "call = (env, request)" by (cases call)
  with Cons show ?case by (simp add: new_click_def)
qed

text \<open>
  C7, as amended. Requests for one active code served one after the other, none of them
  at a time past the link's expiry, each with a client address that is not empty and both
  writes accepted (and, under \<open>ATOMIC_REQUESTS\<close>, a target the redirect accepts): the
  link's \<open>click_count\<close> ends at its initial value plus the number of requests,
  \<open>last_clicked\<close> at the last request's reading, every other row is untouched, and
  the click table has gained exactly the rows of the requests, in order.
\<close>

theorem redirect_all_sequential:
  assumes "wf_db db" and "u \<in> set (url_table db)" and "is_active u"
    and "\<forall>(env, request) \<in> set calls.
           \<not> is_expired (now_is_expired env) u \<and> has_client_address env request
           \<and> \<not> click_insert_fails env \<and> \<not> url_update_fails env
           \<and> (atomic_requests \<longrightarrow>
                (\<exists>location. http_response_redirect env (original_url u) = Inr location))"
  shows "url_table (redirect_all atomic_requests calls (short_code u) db) =
           map (\<lambda>r. if r = u
                 then u\<lparr>click_count := click_count u + length calls,
                       last_clicked := (if calls = [] then last_clicked u
                          else Some (now_increment_click (fst (last calls))))\<rparr>
                 else r) (url_table db)
       \<and> click_table (redirect_all atomic_requests calls (short_code u) db)
           = recorded_clicks calls u (click_table db)"
  using assms
proof (induction calls arbitrary: db u)
  case Nil
  show ?case by (simp add: map_replace_self cong: if_cong)
next
  case (Cons call rest)
  obtain env request where call: "call = (env, request)" by (cases call)
  from Cons.prems(4) call have
    ok: "\<not> is_expired (now_is_expired env) u" "has_client_address env request"
        "\<not> click_insert_fails env" "\<not> url_update_fails env"
    and accepted: "atomic_requests \<longrightarrow>
        (\<exists>location. http_response_redirect env (original_url u) = Inr location)"
    by auto
  define u1 where "u1 = u\<lparr>click_count := click_count u + 1,
                        last_clicked := Some (now_increment_click env)\<rparr>"
  define db1 where "db1 = click_recorded env request u db"
  have db1: "db1 = \<lparr> url_table = map (\<lambda>r. if r = u then u1 else r) (url_table db),
                     click_table = click_table db @ [new_click env request u (click_table db)] \<rparr>"
    by (simp add: db1_def click_recorded_def u1_def)
  have step: "snd (make_view_atomic atomic_requests
                     (redirect_url env request (short_code u)) db) = db1"
    using redirect_url_ok[OF Cons.prems(1-3) ok] accepted
    by (auto simp: make_view_atomic_def db1_def split: sum.splits)
  have u1_facts: "pk u1 = pk u" "short_code u1 = short_code u" "is_active u1"
    "expires_at u1 = expires_at u" "original_url u1 = original_url u"
    using Cons.prems(3) by (simp_all add: u1_def)
  have wf1: "wf_db db1"
    unfolding db1 using wf_db_replace_row[OF Cons.prems(1) u1_facts(1,2)] .
  have mem1: "u1 \<in> set (url_table db1)"
    using Cons.prems(2) by (auto simp: db1)
  have rest_ok: "\<forall>(env, request) \<in> set rest.
           \<not> is_expired (now_is_expired env) u1 \<and> has_client_address env request
           \<and> \<not> click_insert_fails env \<and> \<not> url_update_fails env
           \<and> (atomic_requests \<longrightarrow>
                (\<exists>location. http_response_redirect env (original_url u1) = Inr location))"
    using Cons.prems(4) u1_facts(4,5) by (auto simp: is_expired_def)
  note IH = Cons.IH[OF wf1 mem1 u1_facts(3) rest_ok]
  have unfold: "redirect_all atomic_requests (call # rest) (short_code u) db
                 = redirect_all atomic_requests rest (short_code u1) db1"
    using step call u1_facts(2) by simp
  have others: "r \<noteq> u1" if "r \<in> set (url_table db)" "r \<noteq> u" for r
    using that unique_pk_eq[of "url_table db" r u] Cons.prems(1,2) u1_facts(1)
    by (auto simp: wf_db_def)
  have compose: "map (\<lambda>r. if r = u1 then f u1 else r) (url_table db1)
               = map (\<lambda>r. if r = u then f u1 else r) (url_table db)" for f
    using others by (auto simp: db1)
  have final: "u1\<lparr>click_count := click_count u1 + length rest,
                 last_clicked := (if rest = [] then last_clicked u1
                    else Some (now_increment_click (fst (last rest))))\<rparr>
             = u\<lparr>click_count := click_count u + length (call # rest),
                 last_clicked := (if call # rest = [] then last_clicked u
                    else Some (now_increment_click (fst (last (call # rest)))))\<rparr>"
    using call by (simp add: u1_def)
  have clicks: "recorded_clicks rest u1 (click_table db1)
                  = recorded_clicks (call # rest) u (click_table db)"
    using call recorded_clicks_pk[OF u1_facts(1)] by (simp add: db1)
  show ?case
    unfolding unfold using IH compose[of "\<lambda>v. v\<lparr>click_count := click_count u1 + length rest,
                 last_clicked := (if rest = [] then last_clicked u1
                    else Some (now_increment_click (fst (last rest))))\<rparr>"] final clicks
    by simp
qed

theorem redirect_all_sequential_witness:
  "wf_db demo_db \<and> demo_url \<in> set (url_table demo_db) \<and> is_active demo_url
   \<and> redirect_all True [(demo_env 2000 False, demo_request),
          (demo_env 2010 False, demo_request)] ''abc123'' demo_db
       = \<lparr> url_table = [demo_url\<lparr>click_count := 9, last_clicked := Some 2012\<rparr>, demo_inactive],
           click_table = [demo_click 2001 1, demo_click 2011 2] \<rparr>"
proof -
  have "redirect_all True [(demo_env 2000 False, demo_request),
          (demo_env 2010 False, demo_request)] ''abc123'' demo_db
       = \<lparr> url_table = url_table (redirect_all True [(demo_env 2000 False, demo_request),
          (demo_env 2010 False, demo_request)] ''abc123'' demo_db),
           click_table = click_table (redirect_all True [(demo_env 2000 False, demo_request),
          (demo_env 2010 False, demo_request)] ''abc123'' demo_db) \<rparr>"
    by simp
  then show ?thesis
    using redirect_all_sequential[of demo_db demo_url
      "[(demo_env 2000 False, demo_request), (demo_env 2010 False, demo_request)]" True]
    by (simp add: demo_eval)
qed

text \<open>
  The counterexample to C7 as stated: two overlapping requests on a link whose counter
  is 7 leave two click rows and a counter of 8, since each writes back the value it read
  plus one.
\<close>

theorem redirect_overlapped_loses_increment:
  "click_count demo_url = 7
   \<and> redirect_overlapped (demo_env 2000 False) demo_request (demo_env 2010 False) demo_request
        ''abc123'' demo_db
       = \<lparr> url_table = [demo_url\<lparr>click_count := 8, last_clicked := Some 2012\<rparr>, demo_inactive],
           click_table = [demo_click 2001 1, demo_click 2011 2] \<rparr>"
  by (simp add: demo_eval redirect_overlapped_def redirect_lookup_def
      redirect_record_def get_object_or_404_def Click_objects_create_def increment_click_def
      save_update_fields_def parse_user_agent_def)

section \<open>Properties of the code generator\<close>

lemma characters_length: "length characters = 62"
  by (simp add: characters_def ascii_letters_def ascii_lowercase_def ascii_uppercase_def
      digits_def)

lemma characters_distinct: "distinct characters"
  by (simp add: characters_def ascii_letters_def ascii_lowercase_def ascii_uppercase_def
      digits_def)

lemma random_choice_in: "random_choice draw characters \<in> set characters"
  by (simp add: random_choice_def characters_length)

lemma candidate_length: "length (candidate draws pos) = 6"
  by (simp add: candidate_def)

lemma candidate_alphabet: "set (candidate draws pos) \<subseteq> set characters"
  using random_choice_in by (auto simp: candidate_def)

lemma short_code_exists_iff:
  "short_code_exists code db \<longleftrightarrow> (\<exists>u \<in> set (url_table db). short_code u = code)"
  by (auto simp: short_code_exists_def filter_empty_conv)

lemma generate_short_code_first_free:
  assumes "\<not> short_code_exists (candidate draws (pos + 6 * k)) db"
    and "\<forall>j<k. short_code_exists (candidate draws (pos + 6 * j)) db"
  shows "generate_short_code draws pos db = Some (candidate draws (pos + 6 * k))"
  using assms
proof (induction k arbitrary: pos)
  case 0
  then show ?case by (subst generate_short_code.simps) simp
next
  case (Suc k)
  have shift: "pos + 6 + 6 * j = pos + 6 * Suc j" for j by simp
  from Suc.prems(2) have "short_code_exists (candidate draws (pos + 6 * 0)) db" by blast
  then have taken: "short_code_exists (candidate draws pos) db" by simp
  have free': "\<not> short_code_exists (candidate draws (pos + 6 + 6 * k)) db"
    unfolding shift by (rule Suc.prems(1))
  have taken': "\<forall>j<k. short_code_exists (candidate draws (pos + 6 + 6 * j)) db"
  proof (intro allI impI)
    fix j assume "j < k"
    then have "Suc j < Suc k" by simp
    with Suc.prems(2) have "short_code_exists (candidate draws (pos + 6 * Suc j)) db"
      by blast
    then show "short_code_exists (candidate draws (pos + 6 + 6 * j)) db"
      unfolding shift .
  qed
  have "generate_short_code draws pos db = generate_short_code draws (pos + 6) db"
    using taken by (subst generate_short_code.simps) simp
  also have "\<dots> = Some (candidate draws (pos + 6 + 6 * k))"
    by (rule Suc.IH[OF free' taken'])
  finally show ?case unfolding shift .
qed

lemma generate_short_code_result:
  assumes "generate_short_code draws pos db = Some code"
  shows "\<exists>k. code = candidate draws (pos + 6 * k)
        \<and> \<not> short_code_exists code db
        \<and> (\<forall>j<k. short_code_exists (candidate draws (pos + 6 * j)) db)"
proof (rule generate_short_code.raw_induct[where P = "\<lambda>draws pos db code.
        \<exists>k. code = candidate draws (pos + 6 * k)
        \<and> \<not> short_code_exists code db
        \<and> (\<forall>j<k. short_code_exists (candidate draws (pos + 6 * j)) db)", OF _ assms])
  fix gen :: "(nat \<Rightarrow> nat) \<Rightarrow> nat \<Rightarrow> database \<Rightarrow> string option"
  fix draws pos db code
  assume IH: "\<And>draws pos db code. gen draws pos db = Some code \<Longrightarrow>
        \<exists>k. code = candidate draws (pos + 6 * k)
        \<and> \<not> short_code_exists code db
        \<and> (\<forall>j<k. short_code_exists (candidate draws (pos + 6 * j)) db)"
    and step: "(if \<not> short_code_exists (candidate draws pos) db
                then Some (candidate draws pos)
                else gen draws (pos + 6) db) = Some code"
  have shift: "pos + 6 + 6 * j = pos + 6 * Suc j" for j by simp
  show "\<exists>k. code = candidate draws (pos + 6 * k)
        \<and> \<not> short_code_exists code db
        \<and> (\<forall>j<k. short_code_exists (candidate draws (pos + 6 * j)) db)"
  proof (cases "short_code_exists (candidate draws pos) db")
    case False
    with step have "code = candidate draws pos" by simp
    with False show ?thesis by (intro exI[of _ 0]) simp
  next
    case True
    with step have "gen draws (pos + 6) db = Some code" by simp
    from IH[OF this] obtain k where k:
      "code = candidate draws (pos + 6 * Suc k)" "\<not> short_code_exists code db"
      "\<forall>j<k. short_code_exists (candidate draws (pos + 6 * Suc j)) db"
      unfolding shift by blast
    have "\<forall>j<Suc k. short_code_exists (candidate draws (pos + 6 * j)) db"
    proof (intro allI impI)
      fix j assume less: "j < Suc k"
      show "short_code_exists (candidate draws (pos + 6 * j)) db"
      proof (cases j)
        case 0
        with True show ?thesis by simp
      next
        case (Suc i)
        with less k(3) show ?thesis by simp
      qed
    qed
    with k(1,2) show ?thesis by blast
  qed
qed

lemma generate_short_code_never_returns:
  assumes "\<forall>k. short_code_exists (candidate draws (pos + 6 * k)) db"
  shows "generate_short_code draws pos db = None"
proof (cases "generate_short_code draws pos db")
  case None
  then show ?thesis .
next
  case (Some code)
  from generate_short_code_result[OF Some] assms show ?thesis by auto
qed

section \<open>Properties of allocation\<close>

lemma URL_save_custom:
  assumes "short_code self \<noteq> []"
  shows "URL_save env self db =
     Some (if url_insert_fails env then Inl DatabaseError
           else if short_code_exists (short_code self) db then Inl IntegrityError
           else Inr (new_url_row env self (short_code self) db,
                     db\<lparr>url_table := url_table db @ [new_url_row env self (short_code self) db]\<rparr>))"
  using assms by (simp add: URL_save_def new_url_row_def Let_def)

lemma URL_save_generated:
  assumes "short_code self = []"
  shows "URL_save env self db =
     (case generate_short_code (random_draws env) 0 db of
        None \<Rightarrow> None
      | Some code \<Rightarrow>
          Some (if url_insert_fails env then Inl DatabaseError
                else Inr (new_url_row env self code db,
                          db\<lparr>url_table := url_table db @ [new_url_row env self code db]\<rparr>)))"
proof (cases "generate_short_code (random_draws env) 0 db")
  case None
  with assms show ?thesis by (simp add: URL_save_def)
next
  case (Some code)
  from generate_short_code_result[OF Some] have "\<not> short_code_exists code db" by blast
  with assms Some show ?thesis by (simp add: URL_save_def new_url_row_def Let_def)
qed

lemma URL_save_stored:
  assumes "URL_save env self db = Some (Inr (saved, db'))"
  shows "db' = db\<lparr>url_table := url_table db @ [saved]\<rparr>
       \<and> saved = new_url_row env self (short_code saved) db
       \<and> \<not> short_code_exists (short_code saved) db
       \<and> (short_code self \<noteq> [] \<longrightarrow> short_code saved = short_code self)
       \<and> original_url saved = original_url self
       \<and> expires_at saved = expires_at self
       \<and> pk saved = next_pk (map pk (url_table db))"
proof (cases "short_code self = []")
  case True
  from assms URL_save_generated[OF True, of env db]
  obtain code where code: "generate_short_code (random_draws env) 0 db = Some code"
    and res: "saved = new_url_row env self code db"
      "db' = db\<lparr>url_table := url_table db @ [saved]\<rparr>"
    by (auto split: option.splits if_splits)
  from generate_short_code_result[OF code] have "\<not> short_code_exists code db" by blast
  with res True show ?thesis by (simp add: new_url_row_def)
next
  case False
  from assms URL_save_custom[OF False, of env db] show ?thesis
    by (auto simp: new_url_row_def split: if_splits)
qed

lemma URL_save_failed:
  "URL_save env self db = Some (Inl e) \<Longrightarrow> e = DatabaseError \<or> e = IntegrityError"
  by (auto simp: URL_save_def Let_def split: option.splits if_splits)

lemma next_pk_fresh: "k \<in> set ks \<Longrightarrow> k < next_pk ks"
proof -
  have "\<And>a. fold max ks a \<ge> a \<and> (\<forall>k \<in> set ks. k \<le> fold max ks a)"
  proof (induction ks)
    case Nil
    show ?case by simp
  next
    case (Cons x xs)
    from Cons.IH[of "max x a"] show ?case by auto
  qed
  then show "k \<in> set ks \<Longrightarrow> k < next_pk ks"
    unfolding next_pk_def by (metis le_imp_less_Suc)
qed

text \<open>
  C4. An allocation without a custom code reaches \<open>URL.save\<close> with an empty
  \<open>short_code\<close>, from either endpoint. The generator returns the first candidate that
  no row of the table carries, active or not, having drawn a fresh candidate after each
  collision; it returns nothing exactly when every candidate collides. A code it returns
  has length 6, only characters of the alphabet of 62 distinct letters and digits, and
  differs from the code of every row already stored; the row is appended with that code.
\<close>

theorem URL_save_generates_fresh_code:
  assumes "short_code self = []" and "\<not> url_insert_fails env"
  shows "(\<forall>k. \<not> short_code_exists (candidate (random_draws env) (6 * k)) db
              \<and> (\<forall>j<k. short_code_exists (candidate (random_draws env) (6 * j)) db)
            \<longrightarrow> URL_save env self db =
                  Some (Inr (new_url_row env self (candidate (random_draws env) (6 * k)) db,
                    db\<lparr>url_table := url_table db @
                      [new_url_row env self (candidate (random_draws env) (6 * k)) db]\<rparr>)))
       \<and> ((\<forall>k. short_code_exists (candidate (random_draws env) (6 * k)) db)
            \<longrightarrow> URL_save env self db = None)
       \<and> (\<forall>saved db'. URL_save env self db = Some (Inr (saved, db')) \<longrightarrow>
              length (short_code saved) = 6 \<and> set (short_code saved) \<subseteq> set characters
              \<and> (\<forall>u \<in> set (url_table db). short_code u \<noteq> short_code saved)
              \<and> db' = db\<lparr>url_table := url_table db @ [saved]\<rparr>)
       \<and> length characters = 62 \<and> distinct characters"
proof (intro conjI allI impI)
  fix k
  assume k: "\<not> short_code_exists (candidate (random_draws env) (6 * k)) db
              \<and> (\<forall>j<k. short_code_exists (candidate (random_draws env) (6 * j)) db)"
  then have "generate_short_code (random_draws env) 0 db
               = Some (candidate (random_draws env) (0 + 6 * k))"
    by (intro generate_short_code_first_free) simp_all
  with assms show "URL_save env self db =
      Some (Inr (new_url_row env self (candidate (random_draws env) (6 * k)) db,
        db\<lparr>url_table := url_table db @
          [new_url_row env self (candidate (random_draws env) (6 * k)) db]\<rparr>))"
    by (simp add: URL_save_generated)
next
  assume "\<forall>k. short_code_exists (candidate (random_draws env) (6 * k)) db"
  then have "generate_short_code (random_draws env) 0 db = None"
    by (intro generate_short_code_never_returns) simp
  with assms(1) show "URL_save env self db = None" by (simp add: URL_save_generated)
next
  fix saved db'
  assume stored: "URL_save env self db = Some (Inr (saved, db'))"
  then obtain code where code: "generate_short_code (random_draws env) 0 db = Some code"
    and saved: "saved = new_url_row env self code db"
    using assms by (auto simp: URL_save_generated split: option.splits)
  from generate_short_code_result[OF code] obtain k where
    k: "code = candidate (random_draws env) (0 + 6 * k)" "\<not> short_code_exists code db"
    by blast
  have sc: "short_code saved = code" using saved by (simp add: new_url_row_def)
  show "length (short_code saved) = 6" using sc k(1) by (simp add: candidate_length)
  show "set (short_code saved) \<subseteq> set characters"
    using sc k(1) candidate_alphabet by simp
  show "\<forall>u \<in> set (url_table db). short_code u \<noteq> short_code saved"
    using sc k(2) by (auto simp: short_code_exists_iff)
  show "db' = db\<lparr>url_table := url_table db @ [saved]\<rparr>"
    using URL_save_stored[OF stored] by simp
next
  show "length characters = 62" by (rule characters_length)
  show "distinct characters" by (rule characters_distinct)
qed

lemma py_int_empty: "py_int m [] = None"
  by (simp add: py_int_def int_strip_def)

lemma handle_expiration_absent: "handle_expiration env None url_obj = Inr url_obj"
  by (simp add: handle_expiration_def)

lemma handle_expiration_unparsable:
  "py_int (int_max_str_digits env) s = None \<Longrightarrow>
   handle_expiration env (Some s) url_obj = Inr url_obj"
  by (simp add: handle_expiration_def)


lemma handle_expiration_out_of_range:
  assumes "py_int (int_max_str_digits env) s = Some d"
    and "999999999 < \<bar>d\<bar> \<or> timezone_now env + d * microseconds_per_day < 0
         \<or> datetime_max < timezone_now env + d * microseconds_per_day"
  shows "handle_expiration env (Some s) url_obj = Inl OverflowError"
proof -
  from assms(1) have "s \<noteq> []" using py_int_empty by auto
  with assms show ?thesis
    by (auto simp: handle_expiration_def timedelta_def datetime_add_def)
qed

lemma handle_expiration_keeps:
  assumes "handle_expiration env e url_obj = Inr obj'"
  shows "original_url obj' = original_url url_obj \<and> short_code obj' = short_code url_obj"
  using assms
  by (auto simp: handle_expiration_def split: option.splits if_splits sum.splits)

lemma create_short_url_empty:
  assumes "http_method request = ''POST''"
    and "strip (get_or_empty (POST request) ''original_url'') = []"
  shows "create_short_url env request db = Some (Redirect_home [Please_enter_a_valid_URL], db)"
  using assms by (simp add: create_short_url_def Let_def)

lemma create_short_url_taken:
  assumes "http_method request = ''POST''"
    and "strip (get_or_empty (POST request) ''original_url'') \<noteq> []"
    and "strip (get_or_empty (POST request) ''custom_code'') \<noteq> []"
    and "short_code_exists (strip (get_or_empty (POST request) ''custom_code'')) db"
  shows "create_short_url env request db
           = Some (Redirect_home [Custom_code_already_exists], db)"
  using assms by (simp add: create_short_url_def Let_def)

lemma create_short_url_saves:
  assumes "http_method request = ''POST''"
    and "strip (get_or_empty (POST request) ''original_url'') \<noteq> []"
    and "strip (get_or_empty (POST request) ''custom_code'') \<noteq> [] \<longrightarrow>
         \<not> short_code_exists (strip (get_or_empty (POST request) ''custom_code'')) db"
  shows "create_short_url env request db =
     (case handle_expiration env (POST request ''expires_in_days'')
             ((URL_init
                 (if startswith (strip (get_or_empty (POST request) ''original_url'')) ''http://''
                     \<or> startswith (strip (get_or_empty (POST request) ''original_url'')) ''https://''
                  then strip (get_or_empty (POST request) ''original_url'')
                  else ''https://'' @ strip (get_or_empty (POST request) ''original_url''))
                 (strip (get_or_empty (POST request) ''title''))
                 (strip (get_or_empty (POST request) ''description''))
                 (user request))
              \<lparr>short_code := strip (get_or_empty (POST request) ''custom_code'')\<rparr>) of
        Inl e \<Rightarrow> Some (Redirect_home [Error_creating_short_URL e], db)
      | Inr url_obj \<Rightarrow>
          (case URL_save env url_obj db of
             None \<Rightarrow> None
           | Some (Inl e) \<Rightarrow> Some (Redirect_home [Error_creating_short_URL e], db)
           | Some (Inr (saved, db')) \<Rightarrow> Some (success_response env saved, db')))"
proof -
  have same: "(URL_init a b c d)\<lparr>short_code := []\<rparr> = URL_init a b c d" for a b c d
    by (simp add: URL_init_def)
  show ?thesis
    using assms by (auto simp: create_short_url_def Let_def same)
qed

lemma wf_db_append:
  assumes "wf_db db" and "pk row = next_pk (map pk (url_table db))"
    and "\<not> short_code_exists (short_code row) db"
  shows "wf_db (db\<lparr>url_table := url_table db @ [row]\<rparr>)"
proof -
  have "pk row \<notin> set (map pk (url_table db))"
    using next_pk_fresh[of "pk row" "map pk (url_table db)"] assms(2) by auto
  moreover have "short_code row \<notin> set (map short_code (url_table db))"
    using assms(3) by (auto simp: short_code_exists_iff)
  ultimately show ?thesis using assms(1) by (simp add: wf_db_def)
qed







lemma create_short_url_writes:
  assumes "create_short_url env request db = Some (r, db')"
  shows "db' = db \<or> (\<exists>obj saved. URL_save env obj db = Some (Inr (saved, db'))
      \<and> original_url obj =
         (if startswith (strip (get_or_empty (POST request) ''original_url'')) ''http://''
             \<or> startswith (strip (get_or_empty (POST request) ''original_url'')) ''https://''
          then strip (get_or_empty (POST request) ''original_url'')
          else ''https://'' @ strip (get_or_empty (POST request) ''original_url'')))"
proof (cases "http_method request = ''POST''
    \<and> strip (get_or_empty (POST request) ''original_url'') \<noteq> []
    \<and> (strip (get_or_empty (POST request) ''custom_code'') \<noteq> [] \<longrightarrow>
         \<not> short_code_exists (strip (get_or_empty (POST request) ''custom_code'')) db)")
  case False
  with assms show ?thesis
    by (auto simp: create_short_url_def Let_def split: if_splits)
next
  case True
  then have m: "http_method request = ''POST''"
    and nonempty: "strip (get_or_empty (POST request) ''original_url'') \<noteq> []"
    and ok: "strip (get_or_empty (POST request) ''custom_code'') \<noteq> [] \<longrightarrow>
         \<not> short_code_exists (strip (get_or_empty (POST request) ''custom_code'')) db"
    by blast+
  note eq = create_short_url_saves[OF m nonempty ok, of env]
  show ?thesis
  proof (cases "handle_expiration env (POST request ''expires_in_days'')
             ((URL_init
                 (if startswith (strip (get_or_empty (POST request) ''original_url'')) ''http://''
                     \<or> startswith (strip (get_or_empty (POST request) ''original_url'')) ''https://''
                  then strip (get_or_empty (POST request) ''original_url'')
                  else ''https://'' @ strip (get_or_empty (POST request) ''original_url''))
                 (strip (get_or_empty (POST request) ''title''))
                 (strip (get_or_empty (POST request) ''description''))
                 (user request))
              \<lparr>short_code := strip (get_or_empty (POST request) ''custom_code'')\<rparr>)")
    case (Inl e)
    with assms eq show ?thesis by simp
  next
    case (Inr obj)
    from handle_expiration_keeps[OF Inr]
    have orig: "original_url obj =
       (if startswith (strip (get_or_empty (POST request) ''original_url'')) ''http://''
           \<or> startswith (strip (get_or_empty (POST request) ''original_url'')) ''https://''
        then strip (get_or_empty (POST request) ''original_url'')
        else ''https://'' @ strip (get_or_empty (POST request) ''original_url''))"
      by (simp add: URL_init_def)
    show ?thesis
    proof (cases "URL_save env obj db")
      case None
      with assms eq Inr show ?thesis by simp
    next
      case (Some res)
      show ?thesis
      proof (cases res)
        case (Inl e)
        with assms eq Inr Some show ?thesis by simp
      next
        case (Inr pair)
        obtain saved db2 where "pair = (saved, db2)" by (cases pair)
        with Some Inr have saved: "URL_save env obj db = Some (Inr (saved, db2))" by simp
        moreover from assms eq \<open>handle_expiration _ _ _ = Inr obj\<close> saved
        have "db' = db2" by simp
        ultimately show ?thesis using orig by blast
      qed
    qed
  qed
qed




lemma api_create_url_writes:
  assumes "api_create_url env request db = Some (r, db')"
  shows "db' = db \<or> (\<exists>obj saved. URL_save env obj db = Some (Inr (saved, db')))"
  using assms
  by (auto simp: api_create_url_def Let_def
      split: if_splits sum.splits option.splits prod.splits json.splits)



text \<open>
  C5, as amended. A form whose custom code, once stripped, is the code of a row of the
  table, active or not: the store is unchanged and the generator is not called. The view
  checks the target URL first, so the answer is the message that the code exists when the
  stripped target URL is not empty, and the message asking for a valid URL when it is.
\<close>

theorem custom_code_taken:
  assumes "http_method request = ''POST''"
    and "strip (get_or_empty (POST request) ''custom_code'') \<noteq> []"
    and "short_code_exists (strip (get_or_empty (POST request) ''custom_code'')) db"
  shows "create_short_url env request db
           = Some (Redirect_home
                     [if strip (get_or_empty (POST request) ''original_url'') = []
                      then Please_enter_a_valid_URL else Custom_code_already_exists], db)"
  using assms create_short_url_empty[of request env db] create_short_url_taken[of request db env]
  by (cases "strip (get_or_empty (POST request) ''original_url'') = []") simp_all




section \<open>The store invariant\<close>

lemma URL_save_wf:
  assumes "wf_db db" and "URL_save env obj db = Some (Inr (saved, db'))"
  shows "wf_db db'"
proof -
  from URL_save_stored[OF assms(2)]
  have db': "db' = db\<lparr>url_table := url_table db @ [saved]\<rparr>"
    and saved: "saved = new_url_row env obj (short_code saved) db"
    and free: "\<not> short_code_exists (short_code saved) db"
    and key: "pk saved = next_pk (map pk (url_table db))"
    by simp_all
  from wf_db_append[OF assms(1) key free] db' show ?thesis by simp
qed

lemma redirect_url_wf:
  assumes "wf_db db"
  shows "wf_db (snd (redirect_url env request code db))"
proof (cases "redirect_lookup env code db")
  case (Inl early)
  then show ?thesis using assms by (simp add: redirect_url_split)
next
  case (Inr u)
  then have "get_object_or_404 code db = Inr u"
    by (auto simp: redirect_lookup_def split: sum.splits if_splits)
  then have mem: "u \<in> set (url_table db)" using get_object_or_404_InrD by blast
  have same: "wf_db (db\<lparr>click_table := cs\<rparr>)" for cs
    using assms by (simp add: wf_db_def)
  have upd: "wf_db (click_recorded env request u db)"
    unfolding click_recorded_def by (rule wf_db_replace_row[OF assms]) simp_all
  from Inr have "redirect_url env request code db = redirect_record env request u db"
    by (simp add: redirect_url_split)
  then show ?thesis
    using assms same upd redirect_record_cases[OF assms mem, of env request]
    by (auto split: if_splits)
qed

text \<open>
  Every store the program reaches is well formed: short codes are unique over all rows,
  active or not, and so are primary keys.
\<close>

theorem reachable_wf_db: "reachable db \<Longrightarrow> wf_db db"
proof (induction rule: reachable.induct)
  case empty_store
  show ?case by (simp add: wf_db_def)
next
  case (after_create db env request r db')
  from create_short_url_writes[OF after_create.hyps(2)] after_create.IH URL_save_wf
  show ?case by blast
next
  case (after_api_create db env request r db')
  from api_create_url_writes[OF after_api_create.hyps(2)] after_api_create.IH URL_save_wf
  show ?case by blast
next
  case (after_redirect db atomic_requests renv request code res db')
  have "db' = db \<or> db' = snd (redirect_url renv request code db)"
    using after_redirect.hyps(2)
    by (auto simp: make_view_atomic_def split: prod.splits sum.splits if_splits)
  with after_redirect.IH redirect_url_wf show ?case by auto
qed

lemma URL_save_code_nonempty:
  assumes "URL_save env obj db = Some (Inr (saved, db'))"
  shows "short_code saved \<noteq> []"
proof (cases "short_code obj = []")
  case True
  from assms URL_save_generated[OF True, of env db]
  obtain code where code: "generate_short_code (random_draws env) 0 db = Some code"
    and saved: "saved = new_url_row env obj code db"
    by (auto split: option.splits if_splits)
  from generate_short_code_result[OF code] obtain k where
    "code = candidate (random_draws env) (0 + 6 * k)" by blast
  then have "length code = 6" by (simp add: candidate_length)
  then have "code \<noteq> []" by auto
  with saved show ?thesis by (simp add: new_url_row_def)
next
  case False
  with URL_save_stored[OF assms] show ?thesis by simp
qed

lemma redirect_url_codes:
  assumes "wf_db db"
  shows "map short_code (url_table (snd (redirect_url env request code db)))
           = map short_code (url_table db)"
proof (cases "redirect_lookup env code db")
  case (Inl early)
  then show ?thesis by (simp add: redirect_url_split)
next
  case (Inr u)
  then have "get_object_or_404 code db = Inr u"
    by (auto simp: redirect_lookup_def split: sum.splits if_splits)
  then have mem: "u \<in> set (url_table db)" using get_object_or_404_InrD by blast
  have upd: "map short_code (url_table (click_recorded env request u db))
               = map short_code (url_table db)"
    unfolding click_recorded_def by (simp del: map_map add: map_replace_same)
  from Inr have "redirect_url env request code db = redirect_record env request u db"
    by (simp add: redirect_url_split)
  then show ?thesis
    using upd redirect_record_cases[OF assms mem, of env request]
    by (auto simp del: map_map split: if_splits)
qed

text \<open>No row of a reachable store has an empty short code.\<close>

theorem reachable_codes_nonempty:
  "reachable db \<Longrightarrow> [] \<notin> set (map short_code (url_table db))"
proof (induction rule: reachable.induct)
  case empty_store
  show ?case by simp
next
  case (after_create db env request r db')
  from create_short_url_writes[OF after_create.hyps(2)] show ?case
  proof
    assume "db' = db"
    with after_create.IH show ?thesis by simp
  next
    assume "\<exists>obj saved. URL_save env obj db = Some (Inr (saved, db'))
      \<and> original_url obj =
         (if startswith (strip (get_or_empty (POST request) ''original_url'')) ''http://''
             \<or> startswith (strip (get_or_empty (POST request) ''original_url'')) ''https://''
          then strip (get_or_empty (POST request) ''original_url'')
          else ''https://'' @ strip (get_or_empty (POST request) ''original_url''))"
    then obtain obj saved where s: "URL_save env obj db = Some (Inr (saved, db'))" by blast
    from URL_save_stored[OF s] URL_save_code_nonempty[OF s] after_create.IH
    show ?thesis by auto
  qed
next
  case (after_api_create db env request r db')
  from api_create_url_writes[OF after_api_create.hyps(2)] show ?case
  proof
    assume "db' = db"
    with after_api_create.IH show ?thesis by simp
  next
    assume "\<exists>obj saved. URL_save env obj db = Some (Inr (saved, db'))"
    then obtain obj saved where s: "URL_save env obj db = Some (Inr (saved, db'))" by blast
    from URL_save_stored[OF s] URL_save_code_nonempty[OF s] after_api_create.IH
    show ?thesis by auto
  qed
next
  case (after_redirect db atomic_requests renv request code res db')
  have "db' = db \<or> db' = snd (redirect_url renv request code db)"
    using after_redirect.hyps(2)
    by (auto simp: make_view_atomic_def split: prod.splits sum.splits if_splits)
  moreover have "wf_db db" using after_redirect.hyps(1) by (rule reachable_wf_db)
  ultimately have "map short_code (url_table db') = map short_code (url_table db)"
    using redirect_url_codes[of db renv request code] by auto
  with after_redirect.IH show ?case by metis
qed

section \<open>The allocation on concrete inputs\<close>

lemma candidate_unfold:
  "candidate draws pos =
     [random_choice (draws pos) characters, random_choice (draws (pos + 1)) characters,
      random_choice (draws (pos + 2)) characters, random_choice (draws (pos + 3)) characters,
      random_choice (draws (pos + 4)) characters, random_choice (draws (pos + 5)) characters]"
proof -
  have "[0..<6] = [0, 1, 2, 3, 4, 5 :: nat]" by code_simp
  then show ?thesis by (simp add: candidate_def)
qed

lemma demo_candidates:
  "candidate demo_draws 0 = ''aaaaaa''" "candidate demo_draws 6 = ''bbbbbb''"
  by (simp_all add: candidate_unfold demo_draws_def random_choice_def characters_def
      ascii_letters_def ascii_lowercase_def ascii_uppercase_def digits_def)

lemma demo_db_facts:
  "short_code_exists ''aaaaaa'' demo_db" "\<not> short_code_exists ''bbbbbb'' demo_db"
  "\<not> short_code_exists ''mine'' demo_db" "\<not> short_code_exists ''a/b'' demo_db"
  "next_pk (map pk (url_table demo_db)) = 3" "wf_db demo_db"
  by (simp_all add: short_code_exists_def demo_defs next_pk_def wf_db_def)

lemma demo_generate: "generate_short_code demo_draws 0 demo_db = Some ''bbbbbb''"
  using generate_short_code_first_free[of demo_draws 0 1 demo_db]
  by (simp add: demo_candidates demo_db_facts)

lemmas create_eval = demo_create_env_def demo_post_def demo_api_def demo_row_def
  strip_def isspace_def startswith_def get_or_empty_def URL_init_def
  new_url_row_def created_row_def api_created_row_def get_short_url_def success_response_def
  str_converter_def demo_db_facts demo_generate Let_def

lemmas int_eval = py_int_def int_strip_def int_isspace_def int_magnitude_def digit_value_def

theorem URL_save_generates_fresh_code_witness:
  "short_code (URL_init ''https://foo.com'' [] [] None) = []
   \<and> \<not> url_insert_fails (demo_create_env demo_draws)
   \<and> candidate demo_draws 0 = ''aaaaaa'' \<and> short_code_exists ''aaaaaa'' demo_db
   \<and> candidate demo_draws 6 = ''bbbbbb'' \<and> \<not> short_code_exists ''bbbbbb'' demo_db
   \<and> URL_save (demo_create_env demo_draws) (URL_init ''https://foo.com'' [] [] None) demo_db
        = Some (Inr (demo_row ''https://foo.com'' ''bbbbbb'' None None,
             demo_db\<lparr>url_table := url_table demo_db
                @ [demo_row ''https://foo.com'' ''bbbbbb'' None None]\<rparr>))"
proof -
  have init: "short_code (URL_init ''https://foo.com'' [] [] None) = []"
    by (simp add: URL_init_def)
  have ok: "\<not> url_insert_fails (demo_create_env demo_draws)"
    by (simp add: demo_create_env_def)
  show ?thesis
    using URL_save_generates_fresh_code[OF init ok, of demo_db] init ok
    by (simp add: create_eval demo_candidates URL_save_def)
qed

theorem custom_code_taken_witness:
  "http_method (demo_post [''original_url'' \<mapsto> ''foo.com'', ''custom_code'' \<mapsto> '' aaaaaa '']) = ''POST''
   \<and> strip ''foo.com'' \<noteq> [] \<and> strip '' aaaaaa '' = ''aaaaaa''
   \<and> short_code_exists ''aaaaaa'' demo_db
   \<and> create_short_url (demo_create_env demo_draws)
        (demo_post [''original_url'' \<mapsto> ''foo.com'', ''custom_code'' \<mapsto> '' aaaaaa '']) demo_db
       = Some (Redirect_home [Custom_code_already_exists], demo_db)"
  using custom_code_taken[of "demo_post [''original_url'' \<mapsto> ''foo.com'',
      ''custom_code'' \<mapsto> '' aaaaaa '']" demo_db "demo_create_env demo_draws"]
  by (simp add: create_eval)

text \<open>
  The counterexample to C5 as stated: the custom code is taken and the target URL is
  blank; the view answers with the message asking for a valid URL, not with the message
  that the code exists.
\<close>

theorem custom_code_taken_empty_url:
  "short_code_exists ''aaaaaa'' demo_db
   \<and> create_short_url (demo_create_env demo_draws)
        (demo_post [''original_url'' \<mapsto> ''  '', ''custom_code'' \<mapsto> ''aaaaaa'']) demo_db
       = Some (Redirect_home [Please_enter_a_valid_URL], demo_db)"
  by (simp add: create_eval create_short_url_def)






text \<open>
  The comparison in \<open>is_expired\<close> is strict: at the reading that equals
  \<open>expires_at\<close> the link is not expired yet.
\<close>

lemma zero_ttl_same_reading_not_expired:
  "expires_at u = Some t \<Longrightarrow> \<not> is_expired t u"
  by (simp add: is_expired_def)

text \<open>
  \<open>int()\<close> does not drop the separators 0x1C to 0x1F, which \<open>str.strip\<close> does, and
  refuses more digits than the interpreter's limit.
\<close>

lemma py_int_separator_not_space:
  "py_int 4300 [CHR 0x1C, CHR ''7''] = None" "py_int 4300 [CHR 0x1F, CHR ''-'', CHR ''5''] = None"
  "py_int 4300 [CHR 0x85, CHR ''7'', CHR 0xA0] = Some 7"
  by (simp_all add: int_eval)

lemma int_magnitude_limit:
  assumes "640 < length ds" and "CHR ''_'' \<notin> set ds"
    and "0 < m" and "m < length ds"
  shows "int_magnitude m ds = None"
proof -
  have "filter (\<lambda>c. c \<noteq> CHR ''_'') ds = ds"
    using assms(2) by (induction ds) auto
  with assms show ?thesis by (simp add: int_magnitude_def)
qed

text \<open>
  A custom code with a slash: the row is stored, and the redirect to the detail page
  raises, so the answer is the redirect home with the success and the error message.
\<close>

lemma slash_code_is_stored_with_error:
  "create_short_url (demo_create_env demo_draws)
     (demo_post [''original_url'' \<mapsto> ''foo.com'', ''custom_code'' \<mapsto> ''a/b'']) demo_db
   = Some (Redirect_home [Short_URL_created ''http://localhost:8000/a/b'',
                          Error_creating_short_URL NoReverseMatch],
       demo_db\<lparr>url_table := url_table demo_db
          @ [demo_row ''https://foo.com'' ''a/b'' None (Some 4)]\<rparr>)"
  by (simp add: create_eval create_short_url_def handle_expiration_def URL_save_def)

text \<open>
  A stored target the redirect's constructor refuses: the view raises after the click row
  and the increment are written.
\<close>

lemma refused_target_after_both_writes:
  "make_view_atomic False
     (redirect_url (demo_env 2000 False) demo_request ''abc123'')
     \<lparr> url_table = [demo_url\<lparr>original_url := ''http://[''\<rparr>], click_table = [] \<rparr>
   = (Inl ValueError,
      \<lparr> url_table = [demo_url\<lparr>original_url := ''http://['', click_count := 8,
                                last_clicked := Some 2002\<rparr>],
        click_table = [demo_click 2001 1] \<rparr>)"
  by (simp add: demo_eval view_eval)

end
